theory Spec2Isabelle
  imports Complex_Main "HOL-Library.Word"
begin

section \<open>The routing graph starter of routing/index\_graph\_starter.cpp\<close>

text \<open>
  \<^verbatim>\<open>IndexGraphStarter\<close> splices a start and a finish position into a read-only road
  graph and turns a joint-level route back into a sequence of road points. The source
  file holds the member functions; the classes it works on (\<^verbatim>\<open>RoadPoint\<close>,
  \<^verbatim>\<open>JointEdge\<close>, \<^verbatim>\<open>RoadGeometry\<close>, \<^verbatim>\<open>IndexGraph\<close>, the estimator) are declared in
  headers outside the source tree, so the graph is a record of the queries the starter
  makes, and every theorem holds for every such record.
\<close>

subsection \<open>Data\<close>

text \<open>
  Feature and point identifiers are \<^verbatim>\<open>uint32_t\<close> (lines 50-52); joint identifiers
  (\<^verbatim>\<open>Joint::Id\<close>) are taken as the same 32-bit unsigned type, so \<open>+\<close> wraps and \<open><\<close>
  compares unsigned. Weights are \<^verbatim>\<open>double\<close>; the code only copies and compares them,
  so they are reals here (no NaN).
\<close>

type_synonym u32 = "32 word"

record RoadPoint =
  GetFeatureId :: u32
  GetPointId :: u32

record JointEdge =
  GetTarget :: u32
  GetWeight :: real

record RoadGeometry =
  IsRoad :: bool
  IsOneWay :: bool
  m_points :: "(real \<times> real) list"

record EdgeEstimator =
  CalcEdgesWeight :: "RoadGeometry \<Rightarrow> u32 \<Rightarrow> u32 \<Rightarrow> real"

text \<open>
  The queries of \<^verbatim>\<open>IndexGraph\<close> the starter calls. A query that fills an output vector
  in C++ is the list it produces on an empty vector; the starter appends it.
  \<open>graph_GetEdgesList\<close> is \<^verbatim>\<open>IndexGraph::GetEdgesList\<close> (renamed: the starter has a
  member of the same name).

  Modelled from the spec: \<^verbatim>\<open>IndexGraph::GetDirectedEdge\<close> is not in the source tree. The
  specification describes it as the query for "the single directed edge between their
  two point offsets on that road; if one exists, append it with target = to.resolvedId":
  the field gives the weight of that edge when the edge exists, and the caller appends
  the edge with the target it passed.
\<close>

record IndexGraph =
  GetNumJoints :: u32
  GetJointId :: "RoadPoint \<Rightarrow> u32"
  GetRoad :: "u32 \<Rightarrow> RoadGeometry"
  GetEstimator :: EdgeEstimator
  graph_GetEdgesList :: "u32 \<Rightarrow> bool \<Rightarrow> JointEdge list"
  GetNeighboringEdges :: "RoadPoint \<Rightarrow> bool \<Rightarrow> JointEdge list"
  GetDirectedEdge :: "u32 \<Rightarrow> u32 \<Rightarrow> u32 \<Rightarrow> bool \<Rightarrow> real option"
  JointLiesOnRoad :: "u32 \<Rightarrow> u32 \<Rightarrow> bool"

record FakeJoint =
  m_point :: RoadPoint
  m_fakeId :: u32
  m_jointId :: u32

record IndexGraphStarter =
  m_graph :: IndexGraph
  m_start :: FakeJoint
  m_finish :: FakeJoint

text \<open>
  The two \<^verbatim>\<open>MYTHROW(RoutingException, ...)\<close> sites, with the values their messages
  carry: lines 176 (both joints) and 66-67 (the offset, then the feature).
\<close>

datatype RoutingException =
  CantFindCommonFeature u32 u32
  | WrongEquality u32 u32

subsection \<open>Virtual endpoints (lines 7-14, 181-194)\<close>

text \<open>
  \<^verbatim>\<open>Joint::kInvalidId\<close> is declared outside the source tree: it is the parameter
  \<open>kInvalidId\<close>. \<open>CalcJointId\<close> reads the member \<^verbatim>\<open>m_fakeId\<close>, which the constructor
  has initialised before (\<open>fakeId\<close> here); it does not use the graph.
\<close>

definition CalcJointId :: "u32 \<Rightarrow> u32 \<Rightarrow> IndexGraph \<Rightarrow> u32 \<Rightarrow> u32" where
  "CalcJointId kInvalidId fakeId graph suggestedId =
     (if suggestedId = kInvalidId then fakeId else suggestedId)"

definition FakeJoint_ctor :: "u32 \<Rightarrow> IndexGraph \<Rightarrow> RoadPoint \<Rightarrow> u32 \<Rightarrow> u32 \<Rightarrow> FakeJoint" where
  "FakeJoint_ctor kInvalidId graph point fakeId suggestedId =
     \<lparr>m_point = point, m_fakeId = fakeId,
      m_jointId = CalcJointId kInvalidId fakeId graph suggestedId\<rparr>"

definition IndexGraphStarter_ctor ::
  "u32 \<Rightarrow> IndexGraph \<Rightarrow> RoadPoint \<Rightarrow> RoadPoint \<Rightarrow> IndexGraphStarter" where
  "IndexGraphStarter_ctor kInvalidId graph startPoint finishPoint =
     (let start = FakeJoint_ctor kInvalidId graph startPoint (GetNumJoints graph)
                    (GetJointId graph startPoint);
          finish = FakeJoint_ctor kInvalidId graph finishPoint (GetNumJoints graph + 1)
                    (if startPoint = finishPoint then m_jointId start
                     else GetJointId graph finishPoint)
      in \<lparr>m_graph = graph, m_start = start, m_finish = finish\<rparr>)"

text \<open>
  Modelled from the spec: \<^verbatim>\<open>FakeJoint::IsFake\<close> is defined in the header, outside the
  source tree. The specification calls an endpoint "not actually virtual" when "it
  resolved to a real joint because it coincided with one", and says the resolved
  identifier "equals reservedId unless the position exactly coincides with an existing
  joint": the endpoint is virtual when its resolved identifier is its reserved one.
\<close>

definition IsFake :: "FakeJoint \<Rightarrow> bool" where
  "IsFake fj = (m_jointId fj = m_fakeId fj)"

subsection \<open>Edge enumeration (lines 74-126)\<close>

definition GetFakeEdges ::
  "IndexGraphStarter \<Rightarrow> FakeJoint \<Rightarrow> FakeJoint \<Rightarrow> bool \<Rightarrow> JointEdge list \<Rightarrow> JointEdge list" where
  "GetFakeEdges s from to isOutgoing edges =
     (let edges = edges @ GetNeighboringEdges (m_graph s) (m_point from) isOutgoing
      in if IsFake to \<and> GetFeatureId (m_point from) = GetFeatureId (m_point to)
         then edges @
           (case GetDirectedEdge (m_graph s) (GetFeatureId (m_point from))
                   (GetPointId (m_point from)) (GetPointId (m_point to)) isOutgoing of
              None \<Rightarrow> []
            | Some w \<Rightarrow> [\<lparr>GetTarget = m_jointId to, GetWeight = w\<rparr>])
         else edges)"

definition GetArrivalFakeEdges ::
  "IndexGraphStarter \<Rightarrow> u32 \<Rightarrow> FakeJoint \<Rightarrow> bool \<Rightarrow> JointEdge list \<Rightarrow> JointEdge list" where
  "GetArrivalFakeEdges s jointId fakeJoint isOutgoing edges =
     (if \<not> IsFake fakeJoint then edges
      else if \<not> JointLiesOnRoad (m_graph s) jointId (GetFeatureId (m_point fakeJoint))
      then edges
      else
        (let startEdges = GetNeighboringEdges (m_graph s) (m_point fakeJoint) (\<not> isOutgoing)
         in foldl (\<lambda>edges edge.
                     if GetTarget edge = jointId
                     then edges @ [\<lparr>GetTarget = m_jointId fakeJoint, GetWeight = GetWeight edge\<rparr>]
                     else edges)
                  edges startEdges))"

definition GetEdgesList ::
  "IndexGraphStarter \<Rightarrow> u32 \<Rightarrow> bool \<Rightarrow> JointEdge list \<Rightarrow> JointEdge list" where
  "GetEdgesList s jointId isOutgoing edges =
     (let edges = [] in
      if jointId = m_fakeId (m_start s)
      then GetFakeEdges s (m_start s) (m_finish s) isOutgoing edges
      else if jointId = m_fakeId (m_finish s)
      then GetFakeEdges s (m_finish s) (m_start s) isOutgoing edges
      else
        (let edges = edges @ graph_GetEdgesList (m_graph s) jointId isOutgoing;
             edges = GetArrivalFakeEdges s jointId (m_start s) isOutgoing edges
         in GetArrivalFakeEdges s jointId (m_finish s) isOutgoing edges))"

subsection \<open>Common-segment resolution (lines 128-177)\<close>

text \<open>
  The locals the two nested lambdas capture by reference. \<open>calls\<close> is not in the
  source: it records each invocation of the estimator (road, first offset, second
  offset), so that "the estimator is not invoked" can be stated.
\<close>

record fp_state =
  found :: bool
  minWeight :: real
  result0 :: RoadPoint
  result1 :: RoadPoint
  calls :: "(RoadGeometry \<times> u32 \<times> u32) list"

text \<open>The body of the inner lambda (lines 136-171); each early \<^verbatim>\<open>return\<close> leaves the state.\<close>

definition visit :: "IndexGraph \<Rightarrow> fp_state \<Rightarrow> RoadPoint \<Rightarrow> RoadPoint \<Rightarrow> fp_state" where
  "visit g st rp0 rp1 =
     (if GetFeatureId rp0 \<noteq> GetFeatureId rp1 then st
      else
        (let road = GetRoad g (GetFeatureId rp0) in
         if \<not> IsRoad road then st
         else if IsOneWay road \<and> GetPointId rp0 > GetPointId rp1 then st
         else if found st then
           (let st1 =
                  (if minWeight st < 0 then
                     (let prevRoad = GetRoad g (GetFeatureId (result0 st)) in
                      st\<lparr>minWeight := CalcEdgesWeight (GetEstimator g) prevRoad
                                         (GetPointId (result0 st)) (GetPointId (result1 st)),
                         calls := calls st @
                           [(prevRoad, GetPointId (result0 st), GetPointId (result1 st))]\<rparr>)
                   else st);
                weight = CalcEdgesWeight (GetEstimator g) road (GetPointId rp0) (GetPointId rp1);
                st2 = st1\<lparr>calls := calls st1 @ [(road, GetPointId rp0, GetPointId rp1)]\<rparr>
            in if weight < minWeight st2
               then st2\<lparr>minWeight := weight, result0 := rp0, result1 := rp1\<rparr>
               else st2)
         else st\<lparr>result0 := rp0, result1 := rp1, found := True\<rparr>))"

text \<open>
  \<^verbatim>\<open>IndexGraphStarter::ForEachPoint\<close> is a template member defined in the header, outside
  the source tree: it is the parameter \<open>ForEachPoint\<close>, the list of road points it
  passes to its callback for a joint, in order. The two nested calls (lines 134-135)
  are two nested left folds.
\<close>

definition FindPoints_loop ::
  "IndexGraph \<Rightarrow> (u32 \<Rightarrow> RoadPoint list) \<Rightarrow> u32 \<Rightarrow> u32 \<Rightarrow> fp_state \<Rightarrow> fp_state" where
  "FindPoints_loop g ForEachPoint jointId0 jointId1 st =
     foldl (\<lambda>st rp0. foldl (\<lambda>st rp1. visit g st rp0 rp1) st (ForEachPoint jointId1))
       st (ForEachPoint jointId0)"

definition FindPoints_run ::
  "IndexGraphStarter \<Rightarrow> (u32 \<Rightarrow> RoadPoint list) \<Rightarrow> u32 \<Rightarrow> u32 \<Rightarrow> RoadPoint \<Rightarrow> RoadPoint
     \<Rightarrow> fp_state" where
  "FindPoints_run s ForEachPoint jointId0 jointId1 r0 r1 =
     FindPoints_loop (m_graph s) ForEachPoint jointId0 jointId1
       \<lparr>found = False, minWeight = - 1, result0 = r0, result1 = r1, calls = []\<rparr>"

text \<open>
  \<open>r0\<close> and \<open>r1\<close> are the caller's \<^verbatim>\<open>result0\<close> and \<^verbatim>\<open>result1\<close> on entry. The function
  returns the two references' final values, or the exception of line 176.
\<close>

definition FindPointsWithCommonFeature ::
  "IndexGraphStarter \<Rightarrow> (u32 \<Rightarrow> RoadPoint list) \<Rightarrow> u32 \<Rightarrow> u32 \<Rightarrow> RoadPoint \<Rightarrow> RoadPoint
     \<Rightarrow> RoutingException + RoadPoint \<times> RoadPoint" where
  "FindPointsWithCommonFeature s ForEachPoint jointId0 jointId1 r0 r1 =
     (let st = FindPoints_run s ForEachPoint jointId0 jointId1 r0 r1
      in if \<not> found st then Inl (CantFindCommonFeature jointId0 jointId1)
         else Inr (result0 st, result1 st))"

text \<open>The estimator invocations one call of \<^verbatim>\<open>FindPointsWithCommonFeature\<close> makes.\<close>

definition FindPoints_calls ::
  "IndexGraphStarter \<Rightarrow> (u32 \<Rightarrow> RoadPoint list) \<Rightarrow> u32 \<Rightarrow> u32 \<Rightarrow> RoadPoint \<Rightarrow> RoadPoint
     \<Rightarrow> (RoadGeometry \<times> u32 \<times> u32) list" where
  "FindPoints_calls s ForEachPoint jointId0 jointId1 r0 r1 =
     calls (FindPoints_run s ForEachPoint jointId0 jointId1 r0 r1)"

subsection \<open>Route redress (lines 27-72)\<close>

text \<open>The two inner loops over \<^verbatim>\<open>uint32_t pointId\<close> (lines 56-57 and 61-62).\<close>

function forward_points :: "u32 \<Rightarrow> u32 \<Rightarrow> u32 \<Rightarrow> RoadPoint list \<Rightarrow> RoadPoint list" where
  "forward_points featureId pointId pointTo roadPoints =
     (if pointId < pointTo
      then forward_points featureId (pointId + 1) pointTo
             (roadPoints @ [\<lparr>GetFeatureId = featureId, GetPointId = pointId\<rparr>])
      else roadPoints)"
  by pat_completeness auto
termination
proof (relation "measure (\<lambda>(f, p, t, r). unat t - unat p)")
  show "wf (measure (\<lambda>(f, p, t, r). unat t - unat p))"
    by simp
next
  fix featureId pointId pointTo :: u32 and roadPoints :: "RoadPoint list"
  assume lt: "pointId < pointTo"
  then have "unat pointId < unat pointTo"
    by (simp add: word_less_nat_alt)
  moreover have "pointId + 1 \<noteq> 0"
    using lt by (metis add.commute neg_eq_iff_add_eq_0 word_order.extremum_strict)
  then have "unat (pointId + 1) = Suc (unat pointId)"
    using unatSuc [of pointId] by (simp add: add.commute)
  ultimately show
    "((featureId, pointId + 1, pointTo,
       roadPoints @ [\<lparr>GetFeatureId = featureId, GetPointId = pointId\<rparr>]),
      (featureId, pointId, pointTo, roadPoints))
     \<in> measure (\<lambda>(f, p, t, r). unat t - unat p)"
    by simp
qed

function backward_points :: "u32 \<Rightarrow> u32 \<Rightarrow> u32 \<Rightarrow> RoadPoint list \<Rightarrow> RoadPoint list" where
  "backward_points featureId pointId pointTo roadPoints =
     (if pointId > pointTo
      then backward_points featureId (pointId - 1) pointTo
             (roadPoints @ [\<lparr>GetFeatureId = featureId, GetPointId = pointId\<rparr>])
      else roadPoints)"
  by pat_completeness auto
termination
proof (relation "measure (\<lambda>(f, p, t, r). unat p)")
  show "wf (measure (\<lambda>(f, p, t, r). unat p))"
    by simp
next
  fix featureId pointId pointTo :: u32 and roadPoints :: "RoadPoint list"
  assume gt: "pointTo < pointId"
  then have "pointId \<noteq> 0"
    by auto
  then have "unat (pointId - 1) < unat pointId"
    by (simp add: unat_minus_one unat_gt_0)
  then show
    "((featureId, pointId - 1, pointTo,
       roadPoints @ [\<lparr>GetFeatureId = featureId, GetPointId = pointId\<rparr>]),
      (featureId, pointId, pointTo, roadPoints))
     \<in> measure (\<lambda>(f, p, t, r). unat p)"
    by simp
qed

text \<open>
  The default-constructed \<^verbatim>\<open>RoadPoint rp0; RoadPoint rp1;\<close> of lines 44-45. The
  constructor is outside the source tree; \<open>FindPointsWithCommonFeature\<close> overwrites both
  before it reads them (lemma \<open>FindPoints_init_irrelevant\<close>), so no value is needed
  beyond a placeholder.
\<close>

definition RoadPoint_default :: RoadPoint where
  "RoadPoint_default = \<lparr>GetFeatureId = 0, GetPointId = 0\<rparr>"

text \<open>
  One iteration of the loop of lines 39-71 at index \<open>i\<close>: the buffer after it and the
  exception that left it, if any. An exception leaves in the buffer what was appended
  before the throw. The final \<^verbatim>\<open>emplace_back(rp1)\<close> of line 70 is written into the two
  branches that reach it. \<^verbatim>\<open>reserve\<close> (line 37) changes the capacity of the vector, not
  its content, and has no counterpart here.
\<close>

definition RedressRoute_body ::
  "IndexGraphStarter \<Rightarrow> (u32 \<Rightarrow> RoadPoint list) \<Rightarrow> u32 list \<Rightarrow> nat \<Rightarrow> RoadPoint list
     \<Rightarrow> RoadPoint list \<times> RoutingException option" where
  "RedressRoute_body s ForEachPoint route i roadPoints =
     (let prevJoint = route ! i;
          nextJoint = route ! (i + 1)
      in case FindPointsWithCommonFeature s ForEachPoint prevJoint nextJoint
                RoadPoint_default RoadPoint_default of
           Inl e \<Rightarrow> (roadPoints, Some e)
         | Inr r \<Rightarrow>
             (let rp0 = fst r;
                  rp1 = snd r;
                  roadPoints = (if i = 0 then roadPoints @ [rp0] else roadPoints);
                  featureId = GetFeatureId rp0;
                  pointFrom = GetPointId rp0;
                  pointTo = GetPointId rp1
              in if pointFrom < pointTo
                 then (forward_points featureId (pointFrom + 1) pointTo roadPoints @ [rp1], None)
                 else if pointFrom > pointTo
                 then (backward_points featureId (pointFrom - 1) pointTo roadPoints @ [rp1], None)
                 else (roadPoints, Some (WrongEquality pointFrom featureId))))"

function RedressRoute_loop ::
  "IndexGraphStarter \<Rightarrow> (u32 \<Rightarrow> RoadPoint list) \<Rightarrow> u32 list \<Rightarrow> nat \<Rightarrow> RoadPoint list
     \<Rightarrow> RoadPoint list \<times> RoutingException option" where
  "RedressRoute_loop s ForEachPoint route i roadPoints =
     (if i < length route - 1
      then (case RedressRoute_body s ForEachPoint route i roadPoints of
              (roadPoints', Some e) \<Rightarrow> (roadPoints', Some e)
            | (roadPoints', None) \<Rightarrow> RedressRoute_loop s ForEachPoint route (i + 1) roadPoints')
      else (roadPoints, None))"
  by pat_completeness auto
termination
  by (relation "measure (\<lambda>(s, f, route, i, r). length route - i)") auto

text \<open>The three loops unfold only where a proof asks for it.\<close>

declare forward_points.simps [simp del]
declare backward_points.simps [simp del]
declare RedressRoute_loop.simps [simp del]

definition RedressRoute ::
  "IndexGraphStarter \<Rightarrow> (u32 \<Rightarrow> RoadPoint list) \<Rightarrow> u32 list \<Rightarrow> RoadPoint list
     \<Rightarrow> RoadPoint list \<times> RoutingException option" where
  "RedressRoute s ForEachPoint route roadPoints =
     (if length route < 2
      then (if length route = 1 then (roadPoints @ [m_point (m_start s)], None)
            else (roadPoints, None))
      else RedressRoute_loop s ForEachPoint route 0 roadPoints)"

subsection \<open>The specification's vocabulary\<close>

text \<open>
  These definitions follow the specification's words, not the code; the theorems relate
  the code to them. A candidate pair \<open>qualifies\<close> when "both positions share the same road
  identifier, that road is marked as a routable road, and - if the road is one-way - the
  joint0-side offset is less than or equal to the joint1-side offset". \<open>candidates\<close> are
  the pairs in the order the two nested enumerations visit them, \<open>qualifying\<close> those of
  them that qualify, \<open>weight_of\<close> the estimator's travel weight of a pair, and \<open>pick\<close>
  keeps the earlier of two pairs unless the later one is strictly lighter.
\<close>

definition qualifies :: "IndexGraph \<Rightarrow> RoadPoint \<times> RoadPoint \<Rightarrow> bool" where
  "qualifies g c =
     (GetFeatureId (fst c) = GetFeatureId (snd c) \<and>
      IsRoad (GetRoad g (GetFeatureId (fst c))) \<and>
      (IsOneWay (GetRoad g (GetFeatureId (fst c))) \<longrightarrow> GetPointId (fst c) \<le> GetPointId (snd c)))"

definition candidates :: "(u32 \<Rightarrow> RoadPoint list) \<Rightarrow> u32 \<Rightarrow> u32 \<Rightarrow> (RoadPoint \<times> RoadPoint) list" where
  "candidates ForEachPoint jointId0 jointId1 =
     List.product (ForEachPoint jointId0) (ForEachPoint jointId1)"

definition qualifying ::
  "IndexGraph \<Rightarrow> (u32 \<Rightarrow> RoadPoint list) \<Rightarrow> u32 \<Rightarrow> u32 \<Rightarrow> (RoadPoint \<times> RoadPoint) list" where
  "qualifying g ForEachPoint jointId0 jointId1 =
     filter (qualifies g) (candidates ForEachPoint jointId0 jointId1)"

definition weight_of :: "IndexGraph \<Rightarrow> RoadPoint \<times> RoadPoint \<Rightarrow> real" where
  "weight_of g c =
     CalcEdgesWeight (GetEstimator g) (GetRoad g (GetFeatureId (fst c)))
       (GetPointId (fst c)) (GetPointId (snd c))"

definition pick :: "IndexGraph \<Rightarrow> RoadPoint \<times> RoadPoint \<Rightarrow> RoadPoint \<times> RoadPoint
    \<Rightarrow> RoadPoint \<times> RoadPoint" where
  "pick g b c = (if weight_of g c < weight_of g b then c else b)"

text \<open>
  For route redress: \<open>resolved\<close> is the pair \<open>FindPointsWithCommonFeature\<close> returns for two
  joints; \<open>interior\<close> lists the points of the first point's road at every offset strictly
  between the two offsets, ascending when the first offset is the smaller and descending
  otherwise; \<open>segment\<close> is what the specification has the pair at index \<open>i\<close> of a route
  emit (the first point only at index 0, the interior points, the second point), and
  \<open>expected_route\<close> puts the segments of a route one after the other. \<open>segment_ok\<close> says
  that the pair at index \<open>i\<close> has a qualifying candidate and that the two resolved
  offsets differ.
\<close>

definition resolved ::
  "IndexGraphStarter \<Rightarrow> (u32 \<Rightarrow> RoadPoint list) \<Rightarrow> u32 \<Rightarrow> u32 \<Rightarrow> RoadPoint \<times> RoadPoint" where
  "resolved s ForEachPoint jointId0 jointId1 =
     (case FindPointsWithCommonFeature s ForEachPoint jointId0 jointId1
             RoadPoint_default RoadPoint_default of
        Inr r \<Rightarrow> r
      | Inl e \<Rightarrow> (RoadPoint_default, RoadPoint_default))"

definition interior :: "RoadPoint \<Rightarrow> RoadPoint \<Rightarrow> RoadPoint list" where
  "interior rp0 rp1 =
     map (\<lambda>n. \<lparr>GetFeatureId = GetFeatureId rp0, GetPointId = of_nat n\<rparr>)
       (if GetPointId rp0 < GetPointId rp1
        then [unat (GetPointId rp0) + 1 ..< unat (GetPointId rp1)]
        else rev [unat (GetPointId rp1) + 1 ..< unat (GetPointId rp0)])"

definition segment ::
  "IndexGraphStarter \<Rightarrow> (u32 \<Rightarrow> RoadPoint list) \<Rightarrow> u32 list \<Rightarrow> nat \<Rightarrow> RoadPoint list" where
  "segment s ForEachPoint route i =
     (let r = resolved s ForEachPoint (route ! i) (route ! (i + 1))
      in (if i = 0 then [fst r] else []) @ interior (fst r) (snd r) @ [snd r])"

definition expected_route ::
  "IndexGraphStarter \<Rightarrow> (u32 \<Rightarrow> RoadPoint list) \<Rightarrow> u32 list \<Rightarrow> RoadPoint list" where
  "expected_route s ForEachPoint route =
     concat (map (segment s ForEachPoint route) [0 ..< length route - 1])"

definition segment_ok ::
  "IndexGraphStarter \<Rightarrow> (u32 \<Rightarrow> RoadPoint list) \<Rightarrow> u32 list \<Rightarrow> nat \<Rightarrow> bool" where
  "segment_ok s ForEachPoint route i =
     (qualifying (m_graph s) ForEachPoint (route ! i) (route ! (i + 1)) \<noteq> [] \<and>
      GetPointId (fst (resolved s ForEachPoint (route ! i) (route ! (i + 1)))) \<noteq>
      GetPointId (snd (resolved s ForEachPoint (route ! i) (route ! (i + 1)))))"

text \<open>
  \<open>arrival_edges\<close> is what the specification has a virtual endpoint contribute to the edges
  of a real joint: when the endpoint is virtual and the joint lies on its road, one edge
  per neighbouring edge of the endpoint's position in the opposite direction whose target
  is the joint, in order, each with the endpoint's resolved identifier and the weight of
  that neighbouring edge; otherwise nothing.
\<close>

definition arrival_edges ::
  "IndexGraphStarter \<Rightarrow> u32 \<Rightarrow> FakeJoint \<Rightarrow> bool \<Rightarrow> JointEdge list" where
  "arrival_edges s jointId fakeJoint isOutgoing =
     (if IsFake fakeJoint \<and>
         JointLiesOnRoad (m_graph s) jointId (GetFeatureId (m_point fakeJoint))
      then map (\<lambda>e. \<lparr>GetTarget = m_jointId fakeJoint, GetWeight = GetWeight e\<rparr>)
             (filter (\<lambda>e. GetTarget e = jointId)
                (GetNeighboringEdges (m_graph s) (m_point fakeJoint) (\<not> isOutgoing)))
      else [])"

subsection \<open>A concrete network\<close>

text \<open>
  Three joints: joint 0 holds the points (1,0), (3,0), (3,4) and (4,0), joint 1 holds
  (1,4), (2,0) and (4,2), joint 2 holds (2,2). Roads 1 and 4 are two parallel two-way
  roads between joints 0 and 1, road 2 is one-way from joint 1 to joint 2, and road 3 is
  a closed loop that leaves and enters joint 0. The weight of a stretch is the number of
  points it spans. \<open>ex_starter\<close> starts at (1,1) and finishes at (1,3);
  \<open>ring_starter\<close> starts at (3,1) and finishes at (3,3), both on the loop;
  \<open>same_starter\<close> starts and finishes at (1,1). The invalid joint identifier is the
  largest 32-bit value.
\<close>

definition edge :: "u32 \<Rightarrow> real \<Rightarrow> JointEdge" where
  "edge t w = \<lparr>GetTarget = t, GetWeight = w\<rparr>"

definition rp :: "u32 \<Rightarrow> u32 \<Rightarrow> RoadPoint" where
  "rp f p = \<lparr>GetFeatureId = f, GetPointId = p\<rparr>"

definition ex_estimator :: EdgeEstimator where
  "ex_estimator =
     \<lparr>CalcEdgesWeight = (\<lambda>road a b. real (unat (if a \<le> b then b - a else a - b)))\<rparr>"

definition ex_graph :: IndexGraph where
  "ex_graph =
     \<lparr>GetNumJoints = 3,
      GetJointId = (\<lambda>p. if p = rp 1 0 \<or> p = rp 3 0 \<or> p = rp 3 4 \<or> p = rp 4 0 then 0
                        else if p = rp 1 4 \<or> p = rp 2 0 \<or> p = rp 4 2 then 1
                        else if p = rp 2 2 then 2 else - 1),
      GetRoad = (\<lambda>f. \<lparr>IsRoad = (f = 1 \<or> f = 2 \<or> f = 3 \<or> f = 4), IsOneWay = (f = 2),
                       m_points = []\<rparr>),
      GetEstimator = ex_estimator,
      graph_GetEdgesList = (\<lambda>j d. if j = 0 then [edge 1 4, edge 1 2, edge 0 4]
                                   else if j = 1 then [edge 0 4, edge 0 2] @ (if d then [edge 2 2] else [])
                                   else if j = 2 then (if d then [] else [edge 1 2])
                                   else []),
      GetNeighboringEdges = (\<lambda>p d. if p = rp 1 1 then [edge 0 1, edge 1 3]
                                    else if p = rp 1 3 then [edge 0 3, edge 1 1]
                                    else if p = rp 3 1 then [edge 0 1, edge 0 3]
                                    else if p = rp 3 3 then [edge 0 3, edge 0 1]
                                    else []),
      GetDirectedEdge = (\<lambda>f a b d. if f = 2 \<and> d \<noteq> (a < b) then None
                                     else Some (real (unat (if a \<le> b then b - a else a - b)))),
      JointLiesOnRoad = (\<lambda>j f. (j = 0 \<and> (f = 1 \<or> f = 3 \<or> f = 4)) \<or>
                                 (j = 1 \<and> (f = 1 \<or> f = 2 \<or> f = 4)) \<or> (j = 2 \<and> f = 2))\<rparr>"

definition ex_points :: "u32 \<Rightarrow> RoadPoint list" where
  "ex_points j =
     (if j = 0 then [rp 1 0, rp 3 0, rp 3 4, rp 4 0]
      else if j = 1 then [rp 1 4, rp 2 0, rp 4 2]
      else if j = 2 then [rp 2 2]
      else if j = 3 then [rp 1 1]
      else if j = 4 then [rp 1 3]
      else [])"

definition ex_starter :: IndexGraphStarter where
  "ex_starter = IndexGraphStarter_ctor (- 1) ex_graph (rp 1 1) (rp 1 3)"

definition ring_starter :: IndexGraphStarter where
  "ring_starter = IndexGraphStarter_ctor (- 1) ex_graph (rp 3 1) (rp 3 3)"


section \<open>Properties\<close>

subsection \<open>Output buffers\<close>

lemma arrival_foldl:
  "foldl (\<lambda>edges edge. if GetTarget edge = j then edges @ [F edge] else edges) edges xs
     = edges @ map F (filter (\<lambda>e. GetTarget e = j) xs)"
  by (induction xs arbitrary: edges) simp_all

lemma GetArrivalFakeEdges_eq:
  "GetArrivalFakeEdges s j fj d edges =
     edges @
     (if IsFake fj \<and> JointLiesOnRoad (m_graph s) j (GetFeatureId (m_point fj))
      then map (\<lambda>e. \<lparr>GetTarget = m_jointId fj, GetWeight = GetWeight e\<rparr>)
             (filter (\<lambda>e. GetTarget e = j)
                (GetNeighboringEdges (m_graph s) (m_point fj) (\<not> d)))
      else [])"
  by (simp add: GetArrivalFakeEdges_def arrival_foldl)


lemma forward_points_append:
  "forward_points f p t (buf @ r) = buf @ forward_points f p t r"
proof (induction f p t r rule: forward_points.induct)
  case (1 f p t r)
  show ?case
    using "1.IH" by (subst (1 2) forward_points.simps) simp
qed

lemma backward_points_append:
  "backward_points f p t (buf @ r) = buf @ backward_points f p t r"
proof (induction f p t r rule: backward_points.induct)
  case (1 f p t r)
  show ?case
    using "1.IH" by (subst (1 2) backward_points.simps) simp
qed

lemma RedressRoute_body_append:
  "RedressRoute_body s F route i (buf @ r) =
     (buf @ fst (RedressRoute_body s F route i r), snd (RedressRoute_body s F route i r))"
  by (simp add: RedressRoute_body_def Let_def forward_points_append backward_points_append
      split: sum.splits)

lemma RedressRoute_loop_append:
  "RedressRoute_loop s F route i (buf @ r) =
     (buf @ fst (RedressRoute_loop s F route i r), snd (RedressRoute_loop s F route i r))"
proof (induction s F route i r rule: RedressRoute_loop.induct)
  case (1 s F route i r)
  show ?case
  proof (cases "i < length route - 1")
    case False
    then show ?thesis by (subst (1 2 3) RedressRoute_loop.simps) simp
  next
    case True
    obtain r' e where b: "RedressRoute_body s F route i r = (r', e)"
      by (cases "RedressRoute_body s F route i r")
    then have b': "RedressRoute_body s F route i (buf @ r) = (buf @ r', e)"
      by (simp add: RedressRoute_body_append)
    show ?thesis
    proof (cases e)
      case None
      have "RedressRoute_loop s F route (i + 1) (buf @ r') =
              (buf @ fst (RedressRoute_loop s F route (i + 1) r'),
               snd (RedressRoute_loop s F route (i + 1) r'))"
        using "1.IH" True b None by simp
      with True b b' None show ?thesis
        by (subst (1 2 3) RedressRoute_loop.simps) simp
    next
      case (Some a)
      with True b b' show ?thesis
        by (subst (1 2 3) RedressRoute_loop.simps) simp
    qed
  qed
qed

lemma RedressRoute_append:
  "RedressRoute s F route (buf @ r) =
     (buf @ fst (RedressRoute s F route r), snd (RedressRoute s F route r))"
  using RedressRoute_loop_append [of s F route 0 buf r]
  by (simp add: RedressRoute_def)

text \<open>
  Claim C10. \<open>GetEdgesList\<close> clears the caller's buffer first (line 77), so its result is
  the same for every prior content of the buffer; \<open>RedressRoute\<close> never clears its
  buffer: whatever it appends, and whether it throws, is what it does on an empty buffer,
  placed after the prior content, which stays as it was.
\<close>

theorem C10_buffers:
  "GetEdgesList s j d edges = GetEdgesList s j d [] \<and>
   RedressRoute s F route buf =
     (buf @ fst (RedressRoute s F route []), snd (RedressRoute s F route []))"
  using RedressRoute_append [of s F route buf "[]"]
  by (simp add: GetEdgesList_def)

text \<open>
  Claim C8. Redressing the empty joint sequence appends nothing, and redressing a
  sequence of one joint appends exactly the start endpoint's position; neither throws.
\<close>

theorem C8_redress_short:
  "RedressRoute s F [] [] = ([], None) \<and>
   RedressRoute s F [j] [] = ([m_point (m_start s)], None)"
  by (simp add: RedressRoute_def)

subsection \<open>Common-segment resolution\<close>

lemma visit_skip: "\<not> qualifies g (rp0, rp1) \<Longrightarrow> visit g st rp0 rp1 = st"
  by (auto simp: visit_def qualifies_def Let_def)

lemma visit_first:
  "qualifies g (rp0, rp1) \<Longrightarrow> \<not> found st \<Longrightarrow>
   visit g st rp0 rp1 = st\<lparr>result0 := rp0, result1 := rp1, found := True\<rparr>"
  by (auto simp: visit_def qualifies_def Let_def)

lemma visit_next:
  assumes "qualifies g (rp0, rp1)" and "found st"
    and "minWeight st < 0 \<or> minWeight st = weight_of g (result0 st, result1 st)"
  shows "found (visit g st rp0 rp1) \<and>
         (result0 (visit g st rp0 rp1), result1 (visit g st rp0 rp1)) =
           (if weight_of g (rp0, rp1) < weight_of g (result0 st, result1 st)
            then (rp0, rp1) else (result0 st, result1 st)) \<and>
         minWeight (visit g st rp0 rp1) =
           weight_of g (result0 (visit g st rp0 rp1), result1 (visit g st rp0 rp1))"
  using assms by (auto simp: visit_def qualifies_def weight_of_def Let_def)

lemma FindPoints_loop_product:
  "foldl (\<lambda>st rp0. foldl (\<lambda>st rp1. visit g st rp0 rp1) st ys) st xs =
   foldl (\<lambda>st c. visit g st (fst c) (snd c)) st (List.product xs ys)"
proof (induction xs arbitrary: st)
  case Nil
  show ?case by simp
next
  case (Cons x xs)
  have "foldl (\<lambda>st c. visit g st (fst c) (snd c)) st (map (Pair x) ys) =
        foldl (\<lambda>st rp1. visit g st x rp1) st ys"
    by (simp add: foldl_map)
  with Cons.IH show ?case by simp
qed

lemma foldl_visit_filter:
  "foldl (\<lambda>st c. visit g st (fst c) (snd c)) st cs =
   foldl (\<lambda>st c. visit g st (fst c) (snd c)) st (filter (qualifies g) cs)"
  by (induction cs arbitrary: st) (simp_all add: visit_skip)

lemma FindPoints_loop_qualifying:
  "FindPoints_loop g F j0 j1 st =
   foldl (\<lambda>st c. visit g st (fst c) (snd c)) st (qualifying g F j0 j1)"
  unfolding FindPoints_loop_def qualifying_def candidates_def
  by (simp only: FindPoints_loop_product foldl_visit_filter [symmetric])

lemma foldl_visit_found:
  assumes "\<forall>c\<in>set cs. qualifies g c" and "found st"
    and "minWeight st < 0 \<or> minWeight st = weight_of g (result0 st, result1 st)"
  shows "found (foldl (\<lambda>st c. visit g st (fst c) (snd c)) st cs) \<and>
         (result0 (foldl (\<lambda>st c. visit g st (fst c) (snd c)) st cs),
          result1 (foldl (\<lambda>st c. visit g st (fst c) (snd c)) st cs)) =
           foldl (pick g) (result0 st, result1 st) cs"
  using assms
proof (induction cs arbitrary: st)
  case Nil
  then show ?case by simp
next
  case (Cons c cs)
  have q: "qualifies g (fst c, snd c)"
    using Cons.prems(1) by simp
  note v = visit_next [OF q Cons.prems(2) Cons.prems(3)]
  have "found (foldl (\<lambda>st c. visit g st (fst c) (snd c)) (visit g st (fst c) (snd c)) cs) \<and>
        (result0 (foldl (\<lambda>st c. visit g st (fst c) (snd c)) (visit g st (fst c) (snd c)) cs),
         result1 (foldl (\<lambda>st c. visit g st (fst c) (snd c)) (visit g st (fst c) (snd c)) cs)) =
          foldl (pick g) (result0 (visit g st (fst c) (snd c)),
                          result1 (visit g st (fst c) (snd c))) cs"
    using Cons.prems(1) v by (intro Cons.IH) simp_all
  moreover have "(result0 (visit g st (fst c) (snd c)), result1 (visit g st (fst c) (snd c))) =
                 pick g (result0 st, result1 st) c"
    using v by (simp add: pick_def)
  ultimately show ?case by simp
qed

lemma FindPoints_run_result:
  assumes "qualifying (m_graph s) F j0 j1 = c # cs"
  shows "found (FindPoints_run s F j0 j1 r0 r1) \<and>
         (result0 (FindPoints_run s F j0 j1 r0 r1), result1 (FindPoints_run s F j0 j1 r0 r1)) =
           foldl (pick (m_graph s)) c cs"
proof -
  let ?g = "m_graph s"
  let ?st0 = "\<lparr>found = False, minWeight = - 1, result0 = r0, result1 = r1, calls = []\<rparr>"
  let ?st1 = "?st0\<lparr>result0 := fst c, result1 := snd c, found := True\<rparr>"
  have all: "\<forall>x\<in>set (c # cs). qualifies ?g x"
    using assms [symmetric] by (simp add: qualifying_def)
  then have q: "qualifies ?g (fst c, snd c)" by simp
  have run: "FindPoints_run s F j0 j1 r0 r1 =
             foldl (\<lambda>st c. visit ?g st (fst c) (snd c)) ?st1 cs"
    using visit_first [OF q, of ?st0]
    by (simp add: FindPoints_run_def FindPoints_loop_qualifying assms)
  have "\<forall>x\<in>set cs. qualifies ?g x" using all by simp
  from foldl_visit_found [OF this, of ?st1] show ?thesis
    unfolding run by simp
qed

lemma FindPoints_run_none:
  assumes "qualifying (m_graph s) F j0 j1 = []"
  shows "\<not> found (FindPoints_run s F j0 j1 r0 r1)"
  by (simp add: FindPoints_run_def FindPoints_loop_qualifying assms)

lemma FindPoints_run_single:
  assumes "qualifying (m_graph s) F j0 j1 = [c]"
  shows "calls (FindPoints_run s F j0 j1 r0 r1) = []"
proof -
  have "c \<in> set (qualifying (m_graph s) F j0 j1)"
    using assms by simp
  then have "qualifies (m_graph s) c"
    by (simp add: qualifying_def)
  then have q: "qualifies (m_graph s) (fst c, snd c)" by simp
  show ?thesis
    using visit_first [OF q, of "\<lparr>found = False, minWeight = - 1, result0 = r0, result1 = r1, calls = []\<rparr>"]
    by (simp add: FindPoints_run_def FindPoints_loop_qualifying assms)
qed

lemma foldl_pick_first_min:
  "\<exists>i<length (b # cs). (b # cs) ! i = foldl (pick g) b cs \<and>
     (\<forall>k<length (b # cs). weight_of g ((b # cs) ! i) \<le> weight_of g ((b # cs) ! k)) \<and>
     (\<forall>k<i. weight_of g ((b # cs) ! i) < weight_of g ((b # cs) ! k))"
proof (induction cs rule: rev_induct)
  case Nil
  show ?case by simp
next
  case (snoc c cs)
  define xs where "xs = b # cs"
  define r where "r = foldl (pick g) b cs"
  from snoc.IH obtain i where IH: "i < length (b # cs)"
      "(b # cs) ! i = foldl (pick g) b cs"
      "\<forall>k<length (b # cs). weight_of g ((b # cs) ! i) \<le> weight_of g ((b # cs) ! k)"
      "\<forall>k<i. weight_of g ((b # cs) ! i) < weight_of g ((b # cs) ! k)"
    by blast
  have i: "i < length xs" and xi: "xs ! i = r"
    using IH(1,2) by (simp_all only: xs_def r_def)
  have le: "\<forall>k<length xs. weight_of g r \<le> weight_of g (xs ! k)"
    using IH(3) unfolding IH(2) by (simp only: xs_def r_def)
  have lt: "\<forall>k<i. weight_of g r < weight_of g (xs ! k)"
    using IH(4) unfolding IH(2) by (simp only: xs_def r_def)
  have app: "b # cs @ [c] = xs @ [c]" by (simp add: xs_def)
  have old: "(xs @ [c]) ! k = xs ! k" if "k < length xs" for k
    using that by (simp add: nth_append)
  have new: "(xs @ [c]) ! length xs = c" by simp
  have split: "k < length xs \<or> k = length xs" if "k < length (xs @ [c])" for k
    using that by auto
  show ?case
  proof (cases "weight_of g c < weight_of g r")
    case True
    have res: "foldl (pick g) b (cs @ [c]) = c"
      using True by (simp add: pick_def r_def)
    have "\<forall>k<length (xs @ [c]). weight_of g c \<le> weight_of g ((xs @ [c]) ! k)"
    proof (intro allI impI)
      fix k assume "k < length (xs @ [c])"
      from split [OF this] show "weight_of g c \<le> weight_of g ((xs @ [c]) ! k)"
      proof
        assume k: "k < length xs"
        with le have "weight_of g r \<le> weight_of g (xs ! k)" by blast
        with True show ?thesis by (simp add: old [OF k])
      next
        assume "k = length xs"
        then show ?thesis by (simp only: new order_refl)
      qed
    qed
    moreover have "\<forall>k<length xs. weight_of g c < weight_of g ((xs @ [c]) ! k)"
    proof (intro allI impI)
      fix k assume k: "k < length xs"
      with le have "weight_of g r \<le> weight_of g (xs ! k)" by blast
      with True show "weight_of g c < weight_of g ((xs @ [c]) ! k)"
        by (simp add: old [OF k])
    qed
    ultimately have
      "length xs < length (xs @ [c]) \<and> (xs @ [c]) ! length xs = foldl (pick g) b (cs @ [c]) \<and>
       (\<forall>k<length (xs @ [c]).
          weight_of g ((xs @ [c]) ! length xs) \<le> weight_of g ((xs @ [c]) ! k)) \<and>
       (\<forall>k<length xs. weight_of g ((xs @ [c]) ! length xs) < weight_of g ((xs @ [c]) ! k))"
      by (simp only: new res) simp
    then show ?thesis
      unfolding app by blast
  next
    case False
    have res: "foldl (pick g) b (cs @ [c]) = r"
      using False by (simp add: pick_def r_def)
    have ri: "(xs @ [c]) ! i = r"
      using old [OF i] xi by simp
    have "\<forall>k<length (xs @ [c]). weight_of g r \<le> weight_of g ((xs @ [c]) ! k)"
    proof (intro allI impI)
      fix k assume "k < length (xs @ [c])"
      from split [OF this] show "weight_of g r \<le> weight_of g ((xs @ [c]) ! k)"
      proof
        assume k: "k < length xs"
        with le show ?thesis by (simp add: old [OF k])
      next
        assume "k = length xs"
        with False show ?thesis by simp
      qed
    qed
    moreover have "\<forall>k<i. weight_of g r < weight_of g ((xs @ [c]) ! k)"
    proof (intro allI impI)
      fix k assume k: "k < i"
      then have "k < length xs" using i by simp
      from old [OF this] lt k show "weight_of g r < weight_of g ((xs @ [c]) ! k)" by simp
    qed
    moreover have "i < length (xs @ [c])" using i by simp
    ultimately have
      "i < length (xs @ [c]) \<and> (xs @ [c]) ! i = foldl (pick g) b (cs @ [c]) \<and>
       (\<forall>k<length (xs @ [c]). weight_of g ((xs @ [c]) ! i) \<le> weight_of g ((xs @ [c]) ! k)) \<and>
       (\<forall>k<i. weight_of g ((xs @ [c]) ! i) < weight_of g ((xs @ [c]) ! k))"
      by (simp only: ri res)
    then show ?thesis
      unfolding app by blast
  qed
qed

lemmas ex_defs = ex_graph_def ex_starter_def ring_starter_def IndexGraphStarter_ctor_def
  FakeJoint_ctor_def CalcJointId_def rp_def edge_def IsFake_def ex_estimator_def ex_points_def

lemma ex_graph_starter: "m_graph ex_starter = ex_graph"
  by (simp add: ex_starter_def IndexGraphStarter_ctor_def Let_def)

lemma ex_qualifying_0_1: "qualifying ex_graph ex_points 0 1 = [(rp 1 0, rp 1 4), (rp 4 0, rp 4 2)]"
  by (simp add: qualifying_def candidates_def qualifies_def ex_defs)

lemma ex_qualifying_2_1: "qualifying ex_graph ex_points 2 1 = []"
  by (simp add: qualifying_def candidates_def qualifies_def ex_defs)

lemma ex_qualifying_1_2: "qualifying ex_graph ex_points 1 2 = [(rp 2 0, rp 2 2)]"
  by (simp add: qualifying_def candidates_def qualifies_def ex_defs)

lemma ex_weights: "weight_of ex_graph (rp 1 0, rp 1 4) = 4" "weight_of ex_graph (rp 4 0, rp 4 2) = 2"
  by (simp_all add: weight_of_def ex_defs)

lemma ex_find_0_1: "FindPointsWithCommonFeature ex_starter ex_points 0 1 r0 r1 = Inr (rp 4 0, rp 4 2)"
  using FindPoints_run_result [of ex_starter ex_points 0 1 "(rp 1 0, rp 1 4)" "[(rp 4 0, rp 4 2)]" r0 r1]
  by (simp add: FindPointsWithCommonFeature_def ex_graph_starter ex_qualifying_0_1 pick_def ex_weights)

lemma FindPoints_Inl_iff:
  "(FindPointsWithCommonFeature s F j0 j1 r0 r1 = Inl e) =
   (qualifying (m_graph s) F j0 j1 = [] \<and> e = CantFindCommonFeature j0 j1)"
proof (cases "qualifying (m_graph s) F j0 j1")
  case Nil
  from FindPoints_run_none [OF this, of r0 r1] Nil show ?thesis
    by (auto simp: FindPointsWithCommonFeature_def)
next
  case (Cons c cs)
  from FindPoints_run_result [OF this, of r0 r1] Cons show ?thesis
    by (simp add: FindPointsWithCommonFeature_def)
qed

lemma FindPoints_Inr:
  assumes "qualifying (m_graph s) F j0 j1 = c # cs"
  shows "FindPointsWithCommonFeature s F j0 j1 r0 r1 = Inr (foldl (pick (m_graph s)) c cs)"
  using FindPoints_run_result [OF assms, of r0 r1]
  by (simp add: FindPointsWithCommonFeature_def)

lemma FindPoints_init_irrelevant:
  "FindPointsWithCommonFeature s F j0 j1 r0 r1 =
   FindPointsWithCommonFeature s F j0 j1 r0' r1'"
proof (cases "qualifying (m_graph s) F j0 j1")
  case Nil
  then show ?thesis
    using FindPoints_Inl_iff [of s F j0 j1 r0 r1 "CantFindCommonFeature j0 j1"]
      FindPoints_Inl_iff [of s F j0 j1 r0' r1' "CantFindCommonFeature j0 j1"]
    by simp
next
  case (Cons c cs)
  then show ?thesis by (simp add: FindPoints_Inr)
qed

text \<open>
  Claim C3. \<open>FindPointsWithCommonFeature\<close> throws exactly when no candidate pair
  qualifies, and what it throws is the exception carrying both joint identifiers. In
  particular, when every candidate pair on a shared road lies on a one-way road with the
  first offset above the second, it throws.
\<close>

theorem C3_no_common_feature:
  "(FindPointsWithCommonFeature s F j0 j1 r0 r1 = Inl (CantFindCommonFeature j0 j1)) =
     (qualifying (m_graph s) F j0 j1 = []) \<and>
   (\<forall>e. FindPointsWithCommonFeature s F j0 j1 r0 r1 = Inl e \<longrightarrow>
        e = CantFindCommonFeature j0 j1) \<and>
   ((\<forall>c\<in>set (candidates F j0 j1).
        GetFeatureId (fst c) = GetFeatureId (snd c) \<longrightarrow>
        IsOneWay (GetRoad (m_graph s) (GetFeatureId (fst c))) \<and>
        GetPointId (snd c) < GetPointId (fst c)) \<longrightarrow>
    FindPointsWithCommonFeature s F j0 j1 r0 r1 = Inl (CantFindCommonFeature j0 j1))"
proof (intro conjI allI impI)
  show "(FindPointsWithCommonFeature s F j0 j1 r0 r1 = Inl (CantFindCommonFeature j0 j1)) =
     (qualifying (m_graph s) F j0 j1 = [])"
    by (simp add: FindPoints_Inl_iff)
next
  fix e assume "FindPointsWithCommonFeature s F j0 j1 r0 r1 = Inl e"
  then show "e = CantFindCommonFeature j0 j1"
    by (simp add: FindPoints_Inl_iff)
next
  assume oneway: "\<forall>c\<in>set (candidates F j0 j1).
        GetFeatureId (fst c) = GetFeatureId (snd c) \<longrightarrow>
        IsOneWay (GetRoad (m_graph s) (GetFeatureId (fst c))) \<and>
        GetPointId (snd c) < GetPointId (fst c)"
  have "\<not> qualifies (m_graph s) c" if "c \<in> set (candidates F j0 j1)" for c
    using oneway that by (auto simp: qualifies_def)
  then have "qualifying (m_graph s) F j0 j1 = []"
    by (simp add: qualifying_def filter_empty_conv)
  then show "FindPointsWithCommonFeature s F j0 j1 r0 r1 = Inl (CantFindCommonFeature j0 j1)"
    by (simp add: FindPoints_Inl_iff)
qed

theorem C3_witness:
  "candidates ex_points 2 1 = [(rp 2 2, rp 1 4), (rp 2 2, rp 2 0), (rp 2 2, rp 4 2)] \<and>
   IsOneWay (GetRoad ex_graph 2) \<and>
   qualifying (m_graph ex_starter) ex_points 2 1 = [] \<and>
   FindPointsWithCommonFeature ex_starter ex_points 2 1 RoadPoint_default RoadPoint_default =
     Inl (CantFindCommonFeature 2 1)"
proof -
  have cands: "candidates ex_points 2 1 = [(rp 2 2, rp 1 4), (rp 2 2, rp 2 0), (rp 2 2, rp 4 2)]"
    by (simp add: candidates_def ex_points_def)
  have ow: "IsOneWay (GetRoad ex_graph 2)"
    by (simp add: ex_graph_def)
  have pre: "\<forall>c\<in>set (candidates ex_points 2 1).
        GetFeatureId (fst c) = GetFeatureId (snd c) \<longrightarrow>
        IsOneWay (GetRoad (m_graph ex_starter) (GetFeatureId (fst c))) \<and>
        GetPointId (snd c) < GetPointId (fst c)"
    unfolding cands ex_graph_starter by (simp add: rp_def ex_graph_def)
  note t = C3_no_common_feature [of ex_starter ex_points 2 1 RoadPoint_default RoadPoint_default]
  from t [THEN conjunct2, THEN conjunct2, THEN mp, OF pre]
  have r: "FindPointsWithCommonFeature ex_starter ex_points 2 1 RoadPoint_default
             RoadPoint_default = Inl (CantFindCommonFeature 2 1)" .
  from t [THEN conjunct1] r have "qualifying (m_graph ex_starter) ex_points 2 1 = []"
    by (rule iffD1)
  with cands ow r show ?thesis by (intro conjI)
qed

text \<open>
  Claim C2. When some candidate qualifies, \<open>FindPointsWithCommonFeature\<close> returns the
  qualifying candidate at an index \<open>i\<close> (in iteration order) whose weight is minimal and
  strictly below the weight of every earlier qualifying candidate: the first of minimal
  weight. When exactly one candidate qualifies it is returned and the estimator is never
  invoked.
\<close>

theorem C2_minimum_weight:
  "(qualifying (m_graph s) F j0 j1 \<noteq> [] \<longrightarrow>
     (\<exists>i<length (qualifying (m_graph s) F j0 j1).
        FindPointsWithCommonFeature s F j0 j1 r0 r1 = Inr (qualifying (m_graph s) F j0 j1 ! i) \<and>
        (\<forall>k<length (qualifying (m_graph s) F j0 j1).
           weight_of (m_graph s) (qualifying (m_graph s) F j0 j1 ! i)
             \<le> weight_of (m_graph s) (qualifying (m_graph s) F j0 j1 ! k)) \<and>
        (\<forall>k<i. weight_of (m_graph s) (qualifying (m_graph s) F j0 j1 ! i)
                 < weight_of (m_graph s) (qualifying (m_graph s) F j0 j1 ! k)))) \<and>
   (length (qualifying (m_graph s) F j0 j1) = 1 \<longrightarrow>
      FindPoints_calls s F j0 j1 r0 r1 = [] \<and>
      FindPointsWithCommonFeature s F j0 j1 r0 r1 = Inr (qualifying (m_graph s) F j0 j1 ! 0))"
proof (intro conjI impI)
  assume "qualifying (m_graph s) F j0 j1 \<noteq> []"
  then obtain c cs where q: "qualifying (m_graph s) F j0 j1 = c # cs"
    by (cases "qualifying (m_graph s) F j0 j1") auto
  from foldl_pick_first_min [of c cs "m_graph s"] obtain i where
    f1: "i < length (c # cs)" and f2: "(c # cs) ! i = foldl (pick (m_graph s)) c cs" and
    f3: "\<forall>k<length (c # cs). weight_of (m_graph s) ((c # cs) ! i) \<le> weight_of (m_graph s) ((c # cs) ! k)" and
    f4: "\<forall>k<i. weight_of (m_graph s) ((c # cs) ! i) < weight_of (m_graph s) ((c # cs) ! k)"
    by (elim exE conjE)
  have "i < length (c # cs) \<and> foldl (pick (m_graph s)) c cs = (c # cs) ! i \<and>
    (\<forall>k<length (c # cs). weight_of (m_graph s) ((c # cs) ! i) \<le> weight_of (m_graph s) ((c # cs) ! k)) \<and>
    (\<forall>k<i. weight_of (m_graph s) ((c # cs) ! i) < weight_of (m_graph s) ((c # cs) ! k))"
    using f1 f2 [symmetric] f3 f4 by (intro conjI)
  then show
    "\<exists>i<length (qualifying (m_graph s) F j0 j1).
        FindPointsWithCommonFeature s F j0 j1 r0 r1 = Inr (qualifying (m_graph s) F j0 j1 ! i) \<and>
        (\<forall>k<length (qualifying (m_graph s) F j0 j1).
           weight_of (m_graph s) (qualifying (m_graph s) F j0 j1 ! i)
             \<le> weight_of (m_graph s) (qualifying (m_graph s) F j0 j1 ! k)) \<and>
        (\<forall>k<i. weight_of (m_graph s) (qualifying (m_graph s) F j0 j1 ! i)
                 < weight_of (m_graph s) (qualifying (m_graph s) F j0 j1 ! k))"
    unfolding q FindPoints_Inr [OF q] sum.inject by (rule exI)
next
  assume "length (qualifying (m_graph s) F j0 j1) = 1"
  then obtain c where q: "qualifying (m_graph s) F j0 j1 = [c]"
    by (cases "qualifying (m_graph s) F j0 j1") auto
  show "FindPoints_calls s F j0 j1 r0 r1 = []"
    using FindPoints_run_single [OF q] by (simp add: FindPoints_calls_def)
  show "FindPointsWithCommonFeature s F j0 j1 r0 r1 = Inr (qualifying (m_graph s) F j0 j1 ! 0)"
    using FindPoints_Inr [OF q] by (simp add: q)
qed

theorem C2_witness:
  "qualifying (m_graph ex_starter) ex_points 0 1 = [(rp 1 0, rp 1 4), (rp 4 0, rp 4 2)] \<and>
   weight_of ex_graph (rp 1 0, rp 1 4) = 4 \<and> weight_of ex_graph (rp 4 0, rp 4 2) = 2 \<and>
   FindPointsWithCommonFeature ex_starter ex_points 0 1 RoadPoint_default RoadPoint_default =
     Inr (rp 4 0, rp 4 2) \<and>
   qualifying (m_graph ex_starter) ex_points 1 2 = [(rp 2 0, rp 2 2)] \<and>
   FindPoints_calls ex_starter ex_points 1 2 RoadPoint_default RoadPoint_default = [] \<and>
   FindPointsWithCommonFeature ex_starter ex_points 1 2 RoadPoint_default RoadPoint_default =
     Inr (rp 2 0, rp 2 2)"
  using C2_minimum_weight [of ex_starter ex_points 0 1 RoadPoint_default RoadPoint_default]
    C2_minimum_weight [of ex_starter ex_points 1 2 RoadPoint_default RoadPoint_default]
  by (simp add: ex_graph_starter ex_qualifying_0_1 ex_qualifying_1_2 ex_weights ex_find_0_1)

subsection \<open>Edge enumeration and endpoint resolution\<close>

lemma GetArrivalFakeEdges_arrival:
  "GetArrivalFakeEdges s j fj d edges = edges @ arrival_edges s j fj d"
  by (simp add: GetArrivalFakeEdges_eq arrival_edges_def)




lemma ex_start: "m_start ex_starter = \<lparr>m_point = rp 1 1, m_fakeId = 3, m_jointId = 3\<rparr>"
  by (simp add: ex_defs Let_def)

lemma ex_finish: "m_finish ex_starter = \<lparr>m_point = rp 1 3, m_fakeId = 4, m_jointId = 4\<rparr>"
  by (simp add: ex_defs Let_def)

lemma ring_start: "m_start ring_starter = \<lparr>m_point = rp 3 1, m_fakeId = 3, m_jointId = 3\<rparr>"
  by (simp add: ex_defs Let_def)

lemma ring_finish: "m_finish ring_starter = \<lparr>m_point = rp 3 3, m_fakeId = 4, m_jointId = 4\<rparr>"
  by (simp add: ex_defs Let_def)

lemma ring_graph_starter: "m_graph ring_starter = ex_graph"
  by (simp add: ring_starter_def IndexGraphStarter_ctor_def Let_def)










text \<open>
  Claim C4, amended. For a real joint \<open>j\<close> (neither reserved identifier),
  \<open>GetEdgesList\<close> is the network's own edge list followed by the arrival edges of the
  start and then those of the finish, so it is never shorter than the network's list. An
  endpoint that is virtual and on whose road \<open>j\<close> lies contributes exactly one arrival
  edge per opposite-direction neighbouring edge of its position that targets \<open>j\<close>, any
  other endpoint none: at most two edges are added when each endpoint has at most one
  such neighbouring edge.
\<close>

theorem C4_real_joint_edges:
  "(j \<noteq> m_fakeId (m_start s) \<and> j \<noteq> m_fakeId (m_finish s) \<longrightarrow>
     GetEdgesList s j d edges =
       graph_GetEdgesList (m_graph s) j d @
       arrival_edges s j (m_start s) d @ arrival_edges s j (m_finish s) d \<and>
     length (GetEdgesList s j d edges) =
       length (graph_GetEdgesList (m_graph s) j d) +
       length (arrival_edges s j (m_start s) d) + length (arrival_edges s j (m_finish s) d) \<and>
     length (graph_GetEdgesList (m_graph s) j d) \<le> length (GetEdgesList s j d edges) \<and>
     (length (filter (\<lambda>e. GetTarget e = j)
                 (GetNeighboringEdges (m_graph s) (m_point (m_start s)) (\<not> d))) \<le> 1 \<and>
      length (filter (\<lambda>e. GetTarget e = j)
                 (GetNeighboringEdges (m_graph s) (m_point (m_finish s)) (\<not> d))) \<le> 1 \<longrightarrow>
      length (GetEdgesList s j d edges) \<le> length (graph_GetEdgesList (m_graph s) j d) + 2)) \<and>
   length (arrival_edges s j fj d) =
     (if IsFake fj \<and> JointLiesOnRoad (m_graph s) j (GetFeatureId (m_point fj))
      then length (filter (\<lambda>e. GetTarget e = j)
                     (GetNeighboringEdges (m_graph s) (m_point fj) (\<not> d)))
      else 0)"
proof (intro conjI impI)
  show count: "length (arrival_edges s j fj d) =
     (if IsFake fj \<and> JointLiesOnRoad (m_graph s) j (GetFeatureId (m_point fj))
      then length (filter (\<lambda>e. GetTarget e = j)
                     (GetNeighboringEdges (m_graph s) (m_point fj) (\<not> d)))
      else 0)" for fj
    by (simp add: arrival_edges_def)
  assume real: "j \<noteq> m_fakeId (m_start s) \<and> j \<noteq> m_fakeId (m_finish s)"
  then show eq: "GetEdgesList s j d edges =
       graph_GetEdgesList (m_graph s) j d @
       arrival_edges s j (m_start s) d @ arrival_edges s j (m_finish s) d"
    by (simp add: GetEdgesList_def Let_def GetArrivalFakeEdges_arrival)
  then show len: "length (GetEdgesList s j d edges) =
       length (graph_GetEdgesList (m_graph s) j d) +
       length (arrival_edges s j (m_start s) d) + length (arrival_edges s j (m_finish s) d)"
    by simp
  then show "length (graph_GetEdgesList (m_graph s) j d) \<le> length (GetEdgesList s j d edges)"
    by simp
  assume "length (filter (\<lambda>e. GetTarget e = j)
                 (GetNeighboringEdges (m_graph s) (m_point (m_start s)) (\<not> d))) \<le> 1 \<and>
      length (filter (\<lambda>e. GetTarget e = j)
                 (GetNeighboringEdges (m_graph s) (m_point (m_finish s)) (\<not> d))) \<le> 1"
  with len count [of "m_start s"] count [of "m_finish s"]
  show "length (GetEdgesList s j d edges) \<le> length (graph_GetEdgesList (m_graph s) j d) + 2"
    by (simp split: if_splits)
qed

theorem C4_witness:
  "0 \<noteq> m_fakeId (m_start ex_starter) \<and> 0 \<noteq> m_fakeId (m_finish ex_starter) \<and>
   graph_GetEdgesList (m_graph ex_starter) 0 True = [edge 1 4, edge 1 2, edge 0 4] \<and>
   arrival_edges ex_starter 0 (m_start ex_starter) True = [edge 3 1] \<and>
   arrival_edges ex_starter 0 (m_finish ex_starter) True = [edge 4 3] \<and>
   GetEdgesList ex_starter 0 True [] = [edge 1 4, edge 1 2, edge 0 4, edge 3 1, edge 4 3]"
proof -
  have real: "0 \<noteq> m_fakeId (m_start ex_starter) \<and> 0 \<noteq> m_fakeId (m_finish ex_starter)"
    by (simp add: ex_start ex_finish)
  have net: "graph_GetEdgesList (m_graph ex_starter) 0 True = [edge 1 4, edge 1 2, edge 0 4]"
    by (simp add: ex_graph_starter) (simp add: ex_graph_def)
  have a1: "arrival_edges ex_starter 0 (m_start ex_starter) True = [edge 3 1]"
    by (simp add: arrival_edges_def ex_graph_starter ex_start IsFake_def)
       (simp add: ex_graph_def rp_def edge_def)
  have a2: "arrival_edges ex_starter 0 (m_finish ex_starter) True = [edge 4 3]"
    by (simp add: arrival_edges_def ex_graph_starter ex_finish IsFake_def)
       (simp add: ex_graph_def rp_def edge_def)
  from C4_real_joint_edges [of 0 ex_starter True "[]", THEN conjunct1, THEN mp, OF real,
      THEN conjunct1]
  have "GetEdgesList ex_starter 0 True [] =
       graph_GetEdgesList (m_graph ex_starter) 0 True @
       arrival_edges ex_starter 0 (m_start ex_starter) True @
       arrival_edges ex_starter 0 (m_finish ex_starter) True" .
  then have "GetEdgesList ex_starter 0 True [] =
      [edge 1 4, edge 1 2, edge 0 4, edge 3 1, edge 4 3]"
    by (simp add: net a1 a2)
  with real net a1 a2 show ?thesis by (intro conjI) simp_all
qed

text \<open>
  Claim C4 as stated bounds the additional edges by two. On the loop road both
  neighbouring edges of an endpoint target joint 0, and with both endpoints on the loop
  four arrival edges are added.
\<close>

theorem C4_counterexample:
  "0 \<noteq> m_fakeId (m_start ring_starter) \<and> 0 \<noteq> m_fakeId (m_finish ring_starter) \<and>
   graph_GetEdgesList (m_graph ring_starter) 0 True = [edge 1 4, edge 1 2, edge 0 4] \<and>
   GetEdgesList ring_starter 0 True [] =
     [edge 1 4, edge 1 2, edge 0 4, edge 3 1, edge 3 3, edge 4 3, edge 4 1] \<and>
   length (GetEdgesList ring_starter 0 True []) =
     length (graph_GetEdgesList (m_graph ring_starter) 0 True) + 4"
  by (simp add: GetEdgesList_def ring_graph_starter ring_start ring_finish
      GetArrivalFakeEdges_eq IsFake_def)
     (simp add: ex_graph_def rp_def edge_def)

text \<open>
  Claim C7. When the start and finish positions are equal, both endpoints resolve to the
  identifier computed for the start: the joint at the position, or else the start's
  reserved identifier. The premise leaves out only a network whose joint count is
  \<^verbatim>\<open>Joint::kInvalidId\<close>, with the position on no joint. The data model has no such
  network: the reserved identifier N would be the invalid sentinel, and N + 1 would not be
  an identifier apart from the real ones.
\<close>

theorem C7_same_position:
  "startPoint = finishPoint \<and>
   \<not> (GetNumJoints g = kInvalidId \<and> GetJointId g startPoint = kInvalidId) \<longrightarrow>
     m_jointId (m_finish (IndexGraphStarter_ctor kInvalidId g startPoint finishPoint)) =
       m_jointId (m_start (IndexGraphStarter_ctor kInvalidId g startPoint finishPoint)) \<and>
     m_jointId (m_start (IndexGraphStarter_ctor kInvalidId g startPoint finishPoint)) =
       (if GetJointId g startPoint = kInvalidId then GetNumJoints g
        else GetJointId g startPoint)"
  by (auto simp: IndexGraphStarter_ctor_def FakeJoint_ctor_def CalcJointId_def Let_def)

theorem C7_witness:
  "GetNumJoints ex_graph = 3 \<and> GetJointId ex_graph (rp 1 1) = - 1 \<and>
   m_jointId (m_start (IndexGraphStarter_ctor (- 1) ex_graph (rp 1 1) (rp 1 1))) = 3 \<and>
   m_jointId (m_finish (IndexGraphStarter_ctor (- 1) ex_graph (rp 1 1) (rp 1 1))) = 3 \<and>
   GetJointId ex_graph (rp 1 4) = 1 \<and>
   m_jointId (m_start (IndexGraphStarter_ctor (- 1) ex_graph (rp 1 4) (rp 1 4))) = 1 \<and>
   m_jointId (m_finish (IndexGraphStarter_ctor (- 1) ex_graph (rp 1 4) (rp 1 4))) = 1"
proof -
  have n: "GetNumJoints ex_graph = 3"
    by (simp add: ex_graph_def)
  have j1: "GetJointId ex_graph (rp 1 1) = - 1" and j4: "GetJointId ex_graph (rp 1 4) = 1"
    by (simp_all add: ex_graph_def rp_def)
  have h1: "rp 1 1 = rp 1 1 \<and> \<not> (GetNumJoints ex_graph = - 1 \<and> GetJointId ex_graph (rp 1 1) = - 1)"
    by (simp add: n)
  have h4: "rp 1 4 = rp 1 4 \<and> \<not> (GetNumJoints ex_graph = - 1 \<and> GetJointId ex_graph (rp 1 4) = - 1)"
    by (simp add: n)
  from C7_same_position [of "rp 1 1" "rp 1 1" ex_graph "- 1", THEN mp, OF h1]
    C7_same_position [of "rp 1 4" "rp 1 4" ex_graph "- 1", THEN mp, OF h4]
  show ?thesis
    by (simp add: n j1 j4)
qed

text \<open>
  Why the premise is there: with \<open>2^32 - 1\<close> joints and the sentinel \<open>2^32 - 1\<close>, the
  start on no joint resolves to the sentinel, \<open>CalcJointId\<close> takes that suggestion for
  "no joint", and the finish gets its own reserved identifier, which has wrapped to 0.
\<close>

lemma sentinel_joint_count:
  "GetJointId (ex_graph\<lparr>GetNumJoints := - 1\<rparr>) (rp 1 1) = - 1 \<and>
   m_jointId (m_start (IndexGraphStarter_ctor (- 1) (ex_graph\<lparr>GetNumJoints := - 1\<rparr>)
     (rp 1 1) (rp 1 1))) = - 1 \<and>
   m_jointId (m_finish (IndexGraphStarter_ctor (- 1) (ex_graph\<lparr>GetNumJoints := - 1\<rparr>)
     (rp 1 1) (rp 1 1))) = 0"
  by (simp add: ex_defs Let_def)

subsection \<open>Route redress\<close>

lemma unat_plus_one: "(p::u32) < t \<Longrightarrow> unat (p + 1) = Suc (unat p)"
proof -
  assume "p < t"
  then have "p + 1 \<noteq> 0"
    by (metis add.commute neg_eq_iff_add_eq_0 word_order.extremum_strict)
  then show ?thesis
    using unatSuc [of p] by (simp add: add.commute)
qed

lemma unat_minus_one_Suc: "(t::u32) < p \<Longrightarrow> Suc (unat (p - 1)) = unat p"
proof -
  assume "t < p"
  then have "p \<noteq> 0" by auto
  then show ?thesis
    by (simp add: unat_minus_one unat_gt_0)
qed

lemma forward_points_eq:
  "forward_points f p t r =
     r @ map (\<lambda>n. \<lparr>GetFeatureId = f, GetPointId = of_nat n\<rparr>) [unat p ..< unat t]"
proof (induction f p t r rule: forward_points.induct)
  case (1 f p t r)
  show ?case
  proof (cases "p < t")
    case True
    then have lt: "unat p < unat t" by (simp add: word_less_nat_alt)
    have "forward_points f p t r =
            forward_points f (p + 1) t (r @ [\<lparr>GetFeatureId = f, GetPointId = p\<rparr>])"
      using True by (subst forward_points.simps) simp
    also have "\<dots> = (r @ [\<lparr>GetFeatureId = f, GetPointId = p\<rparr>]) @
        map (\<lambda>n. \<lparr>GetFeatureId = f, GetPointId = of_nat n\<rparr>) [Suc (unat p) ..< unat t]"
      using "1.IH" [OF True] by (simp only: unat_plus_one [OF True])
    also have "\<dots> = r @ map (\<lambda>n. \<lparr>GetFeatureId = f, GetPointId = of_nat n\<rparr>) [unat p ..< unat t]"
      using lt by (simp add: upt_conv_Cons)
    finally show ?thesis .
  next
    case False
    then have "unat t \<le> unat p" by (simp add: word_less_nat_alt)
    with False show ?thesis by (subst forward_points.simps) simp
  qed
qed

lemma backward_points_eq:
  "backward_points f p t r =
     r @ map (\<lambda>n. \<lparr>GetFeatureId = f, GetPointId = of_nat n\<rparr>)
           (rev [Suc (unat t) ..< Suc (unat p)])"
proof (induction f p t r rule: backward_points.induct)
  case (1 f p t r)
  show ?case
  proof (cases "t < p")
    case True
    then have lt: "unat t < unat p" by (simp add: word_less_nat_alt)
    have "backward_points f p t r =
            backward_points f (p - 1) t (r @ [\<lparr>GetFeatureId = f, GetPointId = p\<rparr>])"
      using True by (subst backward_points.simps) simp
    also have "\<dots> = (r @ [\<lparr>GetFeatureId = f, GetPointId = p\<rparr>]) @
        map (\<lambda>n. \<lparr>GetFeatureId = f, GetPointId = of_nat n\<rparr>)
          (rev [Suc (unat t) ..< unat p])"
      using "1.IH" [OF True] by (simp only: unat_minus_one_Suc [OF True])
    also have "\<dots> = r @ map (\<lambda>n. \<lparr>GetFeatureId = f, GetPointId = of_nat n\<rparr>)
        (rev [Suc (unat t) ..< Suc (unat p)])"
      using lt by simp
    finally show ?thesis .
  next
    case False
    then have "unat p \<le> unat t" by (simp add: word_less_nat_alt)
    with False show ?thesis by (subst backward_points.simps) simp
  qed
qed

lemma RedressRoute_body_ok:
  assumes "FindPointsWithCommonFeature s F (route ! i) (route ! (i + 1))
             RoadPoint_default RoadPoint_default = Inr (rp0, rp1)"
    and "GetPointId rp0 \<noteq> GetPointId rp1"
  shows "RedressRoute_body s F route i buf =
           (buf @ (if i = 0 then [rp0] else []) @ interior rp0 rp1 @ [rp1], None)"
proof (cases "GetPointId rp0 < GetPointId rp1")
  case True
  then show ?thesis
    using assms
    by (simp add: RedressRoute_body_def Let_def forward_points_eq interior_def
        unat_plus_one [OF True])
next
  case False
  with assms(2) have gt: "GetPointId rp1 < GetPointId rp0" by simp
  show ?thesis
    using assms False gt
    by (simp add: RedressRoute_body_def Let_def backward_points_eq interior_def
        unat_minus_one_Suc [OF gt])
qed

lemma RedressRoute_body_equal:
  assumes "FindPointsWithCommonFeature s F (route ! i) (route ! (i + 1))
             RoadPoint_default RoadPoint_default = Inr (rp0, rp1)"
    and "GetPointId rp0 = GetPointId rp1"
  shows "RedressRoute_body s F route i buf =
           (buf @ (if i = 0 then [rp0] else []),
            Some (WrongEquality (GetPointId rp0) (GetFeatureId rp0)))"
  using assms by (simp add: RedressRoute_body_def Let_def)

lemma segment_ok_body:
  assumes "segment_ok s F route i"
  shows "RedressRoute_body s F route i buf = (buf @ segment s F route i, None)"
proof -
  from assms obtain c cs where q: "qualifying (m_graph s) F (route ! i) (route ! (i + 1)) = c # cs"
    by (cases "qualifying (m_graph s) F (route ! i) (route ! (i + 1))")
       (auto simp: segment_ok_def)
  obtain rp0 rp1 where r: "foldl (pick (m_graph s)) c cs = (rp0, rp1)"
    by (cases "foldl (pick (m_graph s)) c cs")
  have f: "FindPointsWithCommonFeature s F (route ! i) (route ! (i + 1))
             RoadPoint_default RoadPoint_default = Inr (rp0, rp1)"
    using FindPoints_Inr [OF q] r by simp
  then have res: "resolved s F (route ! i) (route ! (i + 1)) = (rp0, rp1)"
    by (simp add: resolved_def)
  with assms have "GetPointId rp0 \<noteq> GetPointId rp1"
    by (simp add: segment_ok_def)
  from RedressRoute_body_ok [OF f this] res show ?thesis
    by (simp add: segment_def)
qed

lemma RedressRoute_loop_ok:
  assumes "\<forall>k. i \<le> k \<and> k < length route - 1 \<longrightarrow> segment_ok s F route k"
  shows "RedressRoute_loop s F route i buf =
           (buf @ concat (map (segment s F route) [i ..< length route - 1]), None)"
  using assms
proof (induction s F route i buf rule: RedressRoute_loop.induct)
  case (1 s F route i buf)
  show ?case
  proof (cases "i < length route - 1")
    case False
    then show ?thesis by (subst RedressRoute_loop.simps) simp
  next
    case True
    with "1.prems" have "segment_ok s F route i" by simp
    note b = segment_ok_body [OF this, of buf]
    have "RedressRoute_loop s F route (i + 1) (buf @ segment s F route i) =
          ((buf @ segment s F route i) @
             concat (map (segment s F route) [i + 1 ..< length route - 1]), None)"
      using "1.IH" [OF True b [symmetric] refl] "1.prems" by simp
    with True b show ?thesis
      by (subst RedressRoute_loop.simps) (simp add: upt_conv_Cons)
  qed
qed

lemma RedressRoute_loop_throws:
  assumes "i \<le> m" and "m < length route - 1"
    and "\<forall>k. i \<le> k \<and> k < m \<longrightarrow> segment_ok s F route k"
    and "snd (RedressRoute_body s F route m []) = Some e"
  shows "snd (RedressRoute_loop s F route i buf) = Some e"
  using assms
proof (induction s F route i buf rule: RedressRoute_loop.induct)
  case (1 s F route i buf)
  from "1.prems" have lt: "i < length route - 1" by simp
  show ?case
  proof (cases "i = m")
    case True
    have "snd (RedressRoute_body s F route m buf) = Some e"
      using RedressRoute_body_append [of s F route m buf "[]"] "1.prems"(4) by simp
    then obtain r' where "RedressRoute_body s F route i buf = (r', Some e)"
      using True by (cases "RedressRoute_body s F route i buf") simp
    with lt show ?thesis
      by (subst RedressRoute_loop.simps) simp
  next
    case False
    with "1.prems" have im: "i < m" by simp
    with "1.prems" have "segment_ok s F route i" by simp
    note b = segment_ok_body [OF this, of buf]
    have "snd (RedressRoute_loop s F route (i + 1) (buf @ segment s F route i)) = Some e"
      using "1.IH" [OF lt b [symmetric] refl] "1.prems" im by simp
    with lt b show ?thesis
      by (subst RedressRoute_loop.simps) simp
  qed
qed

lemma unat_of_nat_below: "n < unat (p::u32) \<Longrightarrow> unat (of_nat n :: u32) = n"
proof -
  assume "n < unat p"
  moreover have "unat p < 2 ^ 32"
    using unsigned_less [of p] by simp
  ultimately have "n < 2 ^ 32" by simp
  then show ?thesis
    by (simp add: unat_of_nat)
qed

lemma interior_offsets:
  "map (\<lambda>p. (GetFeatureId p, unat (GetPointId p))) (interior rp0 rp1) =
     map (Pair (GetFeatureId rp0))
       (if GetPointId rp0 < GetPointId rp1
        then [unat (GetPointId rp0) + 1 ..< unat (GetPointId rp1)]
        else rev [unat (GetPointId rp1) + 1 ..< unat (GetPointId rp0)])"
  by (auto simp: interior_def unat_of_nat_below)

lemma RedressRoute_ok:
  assumes "2 \<le> length route" and "\<forall>i<length route - 1. segment_ok s F route i"
  shows "RedressRoute s F route buf = (buf @ expected_route s F route, None)"
  using assms RedressRoute_loop_ok [of 0 route s F buf]
  by (simp add: RedressRoute_def expected_route_def)

lemma single_candidate_resolved:
  assumes "qualifying (m_graph s) F a b = [(rp0, rp1)]"
  shows "resolved s F a b = (rp0, rp1)"
  using FindPoints_Inr [OF assms] by (simp add: resolved_def)

text \<open>
  Claim C1, amended. For a joint sequence of length at least 2 in which every consecutive
  pair has a qualifying candidate and resolves to two different offsets, \<open>RedressRoute\<close>
  appends, pair by pair, the first resolved point (only for the first pair), the interior
  points and the second resolved point, and does not throw. For two joints with exactly
  one qualifying candidate, of different offsets, the output is the first point, the
  interior points and the second point. The interior points carry the road of the first
  point and each offset strictly between the two, once, ascending or descending with the
  direction.
\<close>

theorem C1_redress_points:
  "(2 \<le> length route \<and> (\<forall>i<length route - 1. segment_ok s F route i) \<longrightarrow>
      RedressRoute s F route buf = (buf @ expected_route s F route, None)) \<and>
   (qualifying (m_graph s) F a b = [(rp0, rp1)] \<and> GetPointId rp0 \<noteq> GetPointId rp1 \<longrightarrow>
      RedressRoute s F [a, b] [] = ([rp0] @ interior rp0 rp1 @ [rp1], None)) \<and>
   map (\<lambda>p. (GetFeatureId p, unat (GetPointId p))) (interior rp0 rp1) =
     map (Pair (GetFeatureId rp0))
       (if GetPointId rp0 < GetPointId rp1
        then [unat (GetPointId rp0) + 1 ..< unat (GetPointId rp1)]
        else rev [unat (GetPointId rp1) + 1 ..< unat (GetPointId rp0)])"
proof (intro conjI impI)
  assume "2 \<le> length route \<and> (\<forall>i<length route - 1. segment_ok s F route i)"
  then show "RedressRoute s F route buf = (buf @ expected_route s F route, None)"
    using RedressRoute_ok by blast
next
  assume a: "qualifying (m_graph s) F a b = [(rp0, rp1)] \<and> GetPointId rp0 \<noteq> GetPointId rp1"
  then have res: "resolved s F a b = (rp0, rp1)"
    by (simp add: single_candidate_resolved)
  with a have ok: "\<forall>i<length [a, b] - 1. segment_ok s F [a, b] i"
    by (simp add: segment_ok_def)
  have "expected_route s F [a, b] = [rp0] @ interior rp0 rp1 @ [rp1]"
    using res by (simp add: expected_route_def segment_def)
  with RedressRoute_ok [OF _ ok, of "[]"] show
    "RedressRoute s F [a, b] [] = ([rp0] @ interior rp0 rp1 @ [rp1], None)"
    by simp
next
  show "map (\<lambda>p. (GetFeatureId p, unat (GetPointId p))) (interior rp0 rp1) =
     map (Pair (GetFeatureId rp0))
       (if GetPointId rp0 < GetPointId rp1
        then [unat (GetPointId rp0) + 1 ..< unat (GetPointId rp1)]
        else rev [unat (GetPointId rp1) + 1 ..< unat (GetPointId rp0)])"
    by (rule interior_offsets)
qed

lemma ex_qualifying_1_0: "qualifying ex_graph ex_points 1 0 = [(rp 1 4, rp 1 0), (rp 4 2, rp 4 0)]"
  by (simp add: qualifying_def candidates_def qualifies_def ex_defs)

lemma ex_qualifying_2_2: "qualifying ex_graph ex_points 2 2 = [(rp 2 2, rp 2 2)]"
  by (simp add: qualifying_def candidates_def qualifies_def ex_defs)

lemma ex_qualifying_3_1: "qualifying ex_graph ex_points 3 1 = [(rp 1 1, rp 1 4)]"
  by (simp add: qualifying_def candidates_def qualifies_def ex_defs)

lemma ex_qualifying_1_1: "qualifying ex_graph ex_points 1 1 =
    [(rp 1 4, rp 1 4), (rp 2 0, rp 2 0), (rp 4 2, rp 4 2)]"
  by (simp add: qualifying_def candidates_def qualifies_def ex_defs)

lemma ex_interior_ascending: "interior (rp 1 1) (rp 1 4) = [rp 1 2, rp 1 3]"
  by (simp add: interior_def rp_def upt_rec)

lemma ex_interior_descending: "interior (rp 4 2) (rp 4 0) = [rp 4 1]"
  by (simp add: interior_def rp_def upt_rec)

lemma ex_resolved_3_1: "resolved ex_starter ex_points 3 1 = (rp 1 1, rp 1 4)"
  by (rule single_candidate_resolved) (simp add: ex_graph_starter ex_qualifying_3_1)

lemma ex_resolved_1_0: "resolved ex_starter ex_points 1 0 = (rp 4 2, rp 4 0)"
  using FindPoints_Inr [of ex_starter ex_points 1 0 "(rp 1 4, rp 1 0)" "[(rp 4 2, rp 4 0)]"
      RoadPoint_default RoadPoint_default]
  by (simp add: resolved_def ex_graph_starter ex_qualifying_1_0 pick_def weight_of_def) (simp add: ex_defs)

theorem C1_witness:
  "qualifying (m_graph ex_starter) ex_points 3 1 = [(rp 1 1, rp 1 4)] \<and>
   RedressRoute ex_starter ex_points [3, 1] [] = ([rp 1 1, rp 1 2, rp 1 3, rp 1 4], None) \<and>
   segment_ok ex_starter ex_points [3, 1, 0] 0 \<and> segment_ok ex_starter ex_points [3, 1, 0] 1 \<and>
   resolved ex_starter ex_points 1 0 = (rp 4 2, rp 4 0) \<and>
   RedressRoute ex_starter ex_points [3, 1, 0] [] =
     ([rp 1 1, rp 1 2, rp 1 3, rp 1 4, rp 4 1, rp 4 0], None)"
proof -
  have q: "qualifying (m_graph ex_starter) ex_points 3 1 = [(rp 1 1, rp 1 4)]"
    by (simp add: ex_graph_starter ex_qualifying_3_1)
  have ne: "GetPointId (rp 1 1) \<noteq> GetPointId (rp 1 4)"
    by (simp add: rp_def)
  note t = C1_redress_points [of "[3, 1, 0]" ex_starter ex_points "[]" 3 1 "rp 1 1" "rp 1 4"]
  from t [THEN conjunct2, THEN conjunct1, THEN mp, OF conjI, OF q ne]
  have "RedressRoute ex_starter ex_points [3, 1] [] =
          ([rp 1 1] @ interior (rp 1 1) (rp 1 4) @ [rp 1 4], None)" .
  then have two: "RedressRoute ex_starter ex_points [3, 1] [] =
      ([rp 1 1, rp 1 2, rp 1 3, rp 1 4], None)"
    by (simp add: ex_interior_ascending)
  have ok0: "segment_ok ex_starter ex_points [3, 1, 0] 0"
    by (simp add: segment_ok_def ex_graph_starter ex_qualifying_3_1 ex_resolved_3_1) (simp add: rp_def)
  have ok1: "segment_ok ex_starter ex_points [3, 1, 0] 1"
    by (simp add: segment_ok_def ex_graph_starter ex_qualifying_1_0 ex_resolved_1_0) (simp add: rp_def)
  have ok: "\<forall>i<length [3, 1, 0 :: u32] - 1. segment_ok ex_starter ex_points [3, 1, 0] i"
  proof (intro allI impI)
    fix i :: nat assume "i < length [3, 1, 0 :: u32] - 1"
    then have "i = 0 \<or> i = 1" by auto
    with ok0 ok1 show "segment_ok ex_starter ex_points [3, 1, 0] i" by blast
  qed
  have len: "2 \<le> length [3, 1, 0 :: u32]" by simp
  from t [THEN conjunct1, THEN mp, OF conjI, OF len ok]
  have "RedressRoute ex_starter ex_points [3, 1, 0] [] =
      ([] @ expected_route ex_starter ex_points [3, 1, 0], None)" .
  moreover have "expected_route ex_starter ex_points [3, 1, 0] =
      [rp 1 1, rp 1 2, rp 1 3, rp 1 4, rp 4 1, rp 4 0]"
    by (simp add: expected_route_def segment_def upt_rec ex_resolved_3_1 ex_resolved_1_0 ex_interior_ascending ex_interior_descending)
  ultimately have three: "RedressRoute ex_starter ex_points [3, 1, 0] [] =
     ([rp 1 1, rp 1 2, rp 1 3, rp 1 4, rp 4 1, rp 4 0], None)"
    by simp
  from q two ok0 ok1 ex_resolved_1_0 three show ?thesis by (intro conjI)
qed

text \<open>
  Claim C1 as stated asks only for a qualifying candidate per pair. The pair (2, 2) has
  one, of equal offsets: \<open>RedressRoute\<close> appends the first point and throws (lines
  64-68) instead of appending the second point.
\<close>

theorem C1_counterexample:
  "qualifying (m_graph ex_starter) ex_points 2 2 = [(rp 2 2, rp 2 2)] \<and>
   RedressRoute ex_starter ex_points [2, 2] [] = ([rp 2 2], Some (WrongEquality 2 2)) \<and>
   RedressRoute ex_starter ex_points [2, 2] [] \<noteq>
     ([rp 2 2] @ interior (rp 2 2) (rp 2 2) @ [rp 2 2], None)"
proof -
  have q: "qualifying (m_graph ex_starter) ex_points 2 2 = [(rp 2 2, rp 2 2)]"
    by (simp add: ex_graph_starter ex_qualifying_2_2)
  have f: "FindPointsWithCommonFeature ex_starter ex_points ([2, 2] ! 0) ([2, 2] ! (0 + 1))
             RoadPoint_default RoadPoint_default = Inr (rp 2 2, rp 2 2)"
    using FindPoints_Inr [OF q] by simp
  have b: "RedressRoute_body ex_starter ex_points [2, 2] 0 [] =
      ([rp 2 2], Some (WrongEquality 2 2))"
    using RedressRoute_body_equal [OF f refl, of "[]"] by (simp add: rp_def)
  have "RedressRoute ex_starter ex_points [2, 2] [] = ([rp 2 2], Some (WrongEquality 2 2))"
    using b by (simp add: RedressRoute_def) (subst RedressRoute_loop.simps, simp)
  with q show ?thesis by simp
qed

text \<open>
  Claim C9. A pair of positions with the same road and the same offset qualifies on every
  routable road, one-way or not; when it is the only candidate,
  \<open>FindPointsWithCommonFeature\<close> returns it, and \<open>FindPointsWithCommonFeature\<close> never
  throws the equal-offset exception. \<open>RedressRoute\<close> throws it, with the offset and the
  road, at the first pair whose resolved offsets are equal, when the pairs before it are
  sound.
\<close>

theorem C9_equal_offsets:
  "(GetFeatureId rp0 = GetFeatureId rp1 \<and> GetPointId rp0 = GetPointId rp1 \<and>
    IsRoad (GetRoad g (GetFeatureId rp0)) \<longrightarrow> qualifies g (rp0, rp1)) \<and>
   (candidates F j0 j1 = [(rp0, rp1)] \<and>
    GetFeatureId rp0 = GetFeatureId rp1 \<and> GetPointId rp0 = GetPointId rp1 \<and>
    IsRoad (GetRoad (m_graph s) (GetFeatureId rp0)) \<longrightarrow>
      FindPointsWithCommonFeature s F j0 j1 r0 r1 = Inr (rp0, rp1)) \<and>
   FindPointsWithCommonFeature s F j0 j1 r0 r1 \<noteq> Inl (WrongEquality p f) \<and>
   (i < length route - 1 \<and> (\<forall>k<i. segment_ok s F route k) \<and>
    FindPointsWithCommonFeature s F (route ! i) (route ! (i + 1))
      RoadPoint_default RoadPoint_default = Inr (rp0, rp1) \<and>
    GetPointId rp0 = GetPointId rp1 \<longrightarrow>
      snd (RedressRoute s F route buf) =
        Some (WrongEquality (GetPointId rp0) (GetFeatureId rp0)))"
proof (intro conjI impI)
  assume "GetFeatureId rp0 = GetFeatureId rp1 \<and> GetPointId rp0 = GetPointId rp1 \<and>
    IsRoad (GetRoad g (GetFeatureId rp0))"
  then show "qualifies g (rp0, rp1)"
    by (auto simp: qualifies_def)
next
  assume a: "candidates F j0 j1 = [(rp0, rp1)] \<and>
    GetFeatureId rp0 = GetFeatureId rp1 \<and> GetPointId rp0 = GetPointId rp1 \<and>
    IsRoad (GetRoad (m_graph s) (GetFeatureId rp0))"
  then have "qualifying (m_graph s) F j0 j1 = [(rp0, rp1)]"
    by (auto simp: qualifying_def qualifies_def)
  from FindPoints_Inr [OF this] show
    "FindPointsWithCommonFeature s F j0 j1 r0 r1 = Inr (rp0, rp1)"
    by simp
next
  show "FindPointsWithCommonFeature s F j0 j1 r0 r1 \<noteq> Inl (WrongEquality p f)"
    by (simp add: FindPoints_Inl_iff)
next
  assume a: "i < length route - 1 \<and> (\<forall>k<i. segment_ok s F route k) \<and>
    FindPointsWithCommonFeature s F (route ! i) (route ! (i + 1))
      RoadPoint_default RoadPoint_default = Inr (rp0, rp1) \<and>
    GetPointId rp0 = GetPointId rp1"
  then have "i < length route - 1" by (rule conjunct1)
  then have two: "\<not> length route < 2" by arith
  from a have "snd (RedressRoute_body s F route i []) =
      Some (WrongEquality (GetPointId rp0) (GetFeatureId rp0))"
    by (simp add: RedressRoute_body_equal)
  from RedressRoute_loop_throws [of 0 i route s F _ buf, OF _ _ _ this] a
  have "snd (RedressRoute_loop s F route 0 buf) =
      Some (WrongEquality (GetPointId rp0) (GetFeatureId rp0))"
    by simp
  with two show "snd (RedressRoute s F route buf) =
        Some (WrongEquality (GetPointId rp0) (GetFeatureId rp0))"
    by (simp add: RedressRoute_def)
qed

lemma ex_find_1_1: "FindPointsWithCommonFeature ex_starter ex_points 1 1 r0 r1 = Inr (rp 1 4, rp 1 4)"
  using FindPoints_Inr [of ex_starter ex_points 1 1 "(rp 1 4, rp 1 4)"
      "[(rp 2 0, rp 2 0), (rp 4 2, rp 4 2)]" r0 r1]
  by (simp add: ex_graph_starter ex_qualifying_1_1 pick_def weight_of_def) (simp add: ex_defs)

theorem C9_witness:
  "IsOneWay (GetRoad ex_graph 2) \<and> qualifies ex_graph (rp 2 2, rp 2 2) \<and>
   candidates ex_points 2 2 = [(rp 2 2, rp 2 2)] \<and>
   FindPointsWithCommonFeature ex_starter ex_points 2 2 RoadPoint_default RoadPoint_default =
     Inr (rp 2 2, rp 2 2) \<and>
   segment_ok ex_starter ex_points [0, 1, 1] 0 \<and>
   FindPointsWithCommonFeature ex_starter ex_points 1 1 RoadPoint_default RoadPoint_default =
     Inr (rp 1 4, rp 1 4) \<and>
   snd (RedressRoute ex_starter ex_points [0, 1, 1] []) = Some (WrongEquality 4 1)"
proof -
  have ow: "IsOneWay (GetRoad ex_graph 2)"
    by (simp add: ex_graph_def)
  have cands: "candidates ex_points 2 2 = [(rp 2 2, rp 2 2)]"
    by (simp add: candidates_def ex_points_def)
  have h: "GetFeatureId (rp 2 2) = GetFeatureId (rp 2 2) \<and>
      GetPointId (rp 2 2) = GetPointId (rp 2 2) \<and>
      IsRoad (GetRoad ex_graph (GetFeatureId (rp 2 2)))"
    by (simp add: rp_def ex_graph_def)
  have h': "candidates ex_points 2 2 = [(rp 2 2, rp 2 2)] \<and>
      GetFeatureId (rp 2 2) = GetFeatureId (rp 2 2) \<and>
      GetPointId (rp 2 2) = GetPointId (rp 2 2) \<and>
      IsRoad (GetRoad (m_graph ex_starter) (GetFeatureId (rp 2 2)))"
    using cands h by (simp add: ex_graph_starter)
  have ok: "segment_ok ex_starter ex_points [0, 1, 1] 0"
    by (simp add: segment_ok_def ex_graph_starter ex_qualifying_0_1 resolved_def ex_find_0_1) (simp add: rp_def)
  have h'': "1 < length [0, 1, 1 :: u32] - 1 \<and>
      (\<forall>k<1. segment_ok ex_starter ex_points [0, 1, 1] k) \<and>
      FindPointsWithCommonFeature ex_starter ex_points ([0, 1, 1] ! 1) ([0, 1, 1] ! (1 + 1))
        RoadPoint_default RoadPoint_default = Inr (rp 1 4, rp 1 4) \<and>
      GetPointId (rp 1 4) = GetPointId (rp 1 4)"
    using ok by (simp add: ex_find_1_1)
  note t = C9_equal_offsets [of "rp 2 2" "rp 2 2" ex_graph ex_points 2 2 ex_starter
      RoadPoint_default RoadPoint_default 0 0 1 "[0, 1, 1]" "[]"]
  note t' = C9_equal_offsets [of "rp 1 4" "rp 1 4" ex_graph ex_points 2 2 ex_starter
      RoadPoint_default RoadPoint_default 0 0 1 "[0, 1, 1]" "[]"]
  from t [THEN conjunct1, THEN mp, OF h]
  have a: "qualifies ex_graph (rp 2 2, rp 2 2)" .
  from t [THEN conjunct2, THEN conjunct1, THEN mp, OF h']
  have b: "FindPointsWithCommonFeature ex_starter ex_points 2 2 RoadPoint_default
      RoadPoint_default = Inr (rp 2 2, rp 2 2)" .
  from t' [THEN conjunct2, THEN conjunct2, THEN conjunct2, THEN mp, OF h'']
  have "snd (RedressRoute ex_starter ex_points [0, 1, 1] []) =
      Some (WrongEquality (GetPointId (rp 1 4)) (GetFeatureId (rp 1 4)))" .
  then have c: "snd (RedressRoute ex_starter ex_points [0, 1, 1] []) =
      Some (WrongEquality 4 1)"
    by (simp add: rp_def)
  from ow a cands b ok ex_find_1_1 c show ?thesis by (intro conjI)
qed

end
